theory Spec2Isabelle
  imports Main "HOL-Library.AList" "HOL-Library.Multiset"
begin

section \<open>The booking application: pricing and the booking store\<close>

text \<open>
  A shallow embedding of \<^verbatim>\<open>src/app.py\<close>: the price calculator
  \<^verbatim>\<open>calculate_price\<close>, the database helpers \<^verbatim>\<open>get_db\<close> and
  \<^verbatim>\<open>init_db\<close>, and the two handlers that touch the store, \<^verbatim>\<open>book\<close> and
  \<^verbatim>\<open>admin\<close>. Python integers are unbounded and are modelled by \<open>int\<close>; text is
  \<open>string\<close>; a value that may be Python's \<^verbatim>\<open>None\<close> (a missing form field, an SQL NULL)
  is an \<open>option\<close>.
\<close>

subsection \<open>Price calculator\<close>

definition GROUP_PRICE :: int where
  "GROUP_PRICE = 590"

definition INDIVIDUAL_PRICE :: int where
  "INDIVIDUAL_PRICE = 790"

text \<open>
  The dictionary literal \<^verbatim>\<open>{'group': GROUP_PRICE, 'individual': INDIVIDUAL_PRICE}\<close>
  built inside \<^verbatim>\<open>calculate_price\<close>.
\<close>

definition prices :: "string \<rightharpoonup> int" where
  "prices = [''group'' \<mapsto> GROUP_PRICE, ''individual'' \<mapsto> INDIVIDUAL_PRICE]"

text \<open>
  \<^verbatim>\<open>d.get(key, default)\<close>. The key is what the caller has: \<^verbatim>\<open>book\<close> passes the
  value of the form field, which is \<^verbatim>\<open>None\<close> when the field is missing. \<^verbatim>\<open>None\<close>
  is hashable and is no key of a dictionary of texts, so the lookup gives the default.
\<close>

definition dict_get :: "(string \<rightharpoonup> int) \<Rightarrow> string option \<Rightarrow> int \<Rightarrow> int" where
  "dict_get d key dflt =
     (case key of
        None \<Rightarrow> dflt
      | Some k \<Rightarrow> (case d k of None \<Rightarrow> dflt | Some v \<Rightarrow> v))"

text \<open>
  \<^verbatim>\<open>return prices.get(plan, GROUP_PRICE) * max(1, int(hours))\<close>. The parameter
  \<^verbatim>\<open>hours\<close> is annotated \<^verbatim>\<open>int\<close> and its only caller passes an \<^verbatim>\<open>int\<close>, on
  which \<^verbatim>\<open>int(hours)\<close> is the identity.
\<close>

definition calculate_price :: "string option \<Rightarrow> int \<Rightarrow> int" where
  "calculate_price plan hours = dict_get prices plan GROUP_PRICE * max 1 hours"

text \<open>
  The rate of a plan, as the constants and the dictionary of the source give it: the
  two recognised plans have their own rate, every other identifier (and a missing one)
  the group rate.
\<close>

definition rate :: "string option \<Rightarrow> int" where
  "rate plan = dict_get prices plan GROUP_PRICE"

subsection \<open>Text to integer\<close>

text \<open>
  \<^verbatim>\<open>book\<close> converts the text of the \<^verbatim>\<open>hours\<close> field with the built-in
  \<^verbatim>\<open>int\<close>, which is not code of this program. The handler takes the conversion as a
  parameter \<open>string \<Rightarrow> int option\<close>, with \<open>None\<close> for \<^verbatim>\<open>ValueError\<close>, so the
  general results hold whatever the built-in accepts. \<open>py_int\<close> below is the built-in
  on texts of one-byte characters, for evaluating the handler on concrete requests:
  surrounding white space is dropped, one sign may lead, and decimal digits follow,
  where single underscores may separate digits.
\<close>

definition is_space :: "char \<Rightarrow> bool" where
  "is_space c =
     (let n = (of_char c :: nat)
      in (9 \<le> n \<and> n \<le> 13) \<or> (28 \<le> n \<and> n \<le> 32) \<or> n = 133 \<or> n = 160)"

definition is_digit :: "char \<Rightarrow> bool" where
  "is_digit c = (let n = (of_char c :: nat) in 48 \<le> n \<and> n \<le> 57)"

definition digit_val :: "char \<Rightarrow> int" where
  "digit_val c = int (of_char c) - 48"

definition strip :: "string \<Rightarrow> string" where
  "strip s = rev (dropWhile is_space (rev (dropWhile is_space s)))"

fun py_digits :: "bool \<Rightarrow> int \<Rightarrow> string \<Rightarrow> int option" where
  "py_digits after_digit acc [] = (if after_digit then Some acc else None)"
| "py_digits after_digit acc (c # cs) =
     (if is_digit c then py_digits True (10 * acc + digit_val c) cs
      else if c = CHR ''_'' \<and> after_digit then py_digits False acc cs
      else None)"

definition py_int :: "string \<Rightarrow> int option" where
  "py_int s =
     (case strip s of
        [] \<Rightarrow> None
      | c # cs \<Rightarrow>
          if c = CHR ''-'' then map_option uminus (py_digits False 0 cs)
          else if c = CHR ''+'' then py_digits False 0 cs
          else py_digits False 0 (c # cs))"

subsection \<open>The store\<close>

text \<open>
  A row of the table \<^verbatim>\<open>bookings\<close>, one field for each column; the same nine
  values are the dictionary that \<^verbatim>\<open>admin\<close> builds from a fetched row. A text column
  holds NULL where the handler bound \<^verbatim>\<open>None\<close>.
\<close>

record booking =
  id_col :: int
  name_col :: "string option"
  email_col :: "string option"
  phone_col :: "string option"
  plan_col :: "string option"
  hours_col :: int
  price_col :: int
  notes_col :: "string option"
  created_at_col :: string

text \<open>
  A table is its rows in insertion order and, for the \<^verbatim>\<open>AUTOINCREMENT\<close> key, the
  largest key ever given out (SQLite keeps it in \<^verbatim>\<open>sqlite_sequence\<close>). A database is
  its schema: the tables by name. The file \<^verbatim>\<open>bookings.db\<close> is absent (\<open>None\<close>) or
  holds a database.
\<close>

record table =
  rows :: "booking list"
  sqlite_sequence :: int

type_synonym database = "(string \<times> table) list"

datatype error =
  No_such_table
| Int_too_large
| Database_full
| Unauthorized

text \<open>
  \<^verbatim>\<open>CREATE TABLE IF NOT EXISTS bookings (...)\<close> followed by \<^verbatim>\<open>db.commit()\<close>.
\<close>

definition init_db :: "database \<Rightarrow> database" where
  "init_db db =
     (case map_of db ''bookings'' of
        None \<Rightarrow> db @ [(''bookings'', \<lparr>rows = [], sqlite_sequence = 0\<rparr>)]
      | Some t \<Rightarrow> db)"

text \<open>
  \<^verbatim>\<open>get_db\<close>: \<^verbatim>\<open>need_init\<close> is true when the file does not exist; connecting then
  creates an empty database, which is initialised. An existing file is opened as it
  is. The connection is kept on the request context \<^verbatim>\<open>g\<close>, which is new for each
  request, and each handler asks for it once; the result here is the database the
  connection reads and writes, and the file exists from then on.
\<close>

definition get_db :: "database option \<Rightarrow> database" where
  "get_db file =
     (case file of
        None \<Rightarrow> init_db []
      | Some db \<Rightarrow> db)"

text \<open>
  The key of a new row under \<^verbatim>\<open>INTEGER PRIMARY KEY AUTOINCREMENT\<close> is one more than
  the largest key the table holds or has ever given out; when that is the largest
  64-bit integer the insertion fails. An integer bound to a statement has to fit 64
  bits, or the binding raises \<^verbatim>\<open>OverflowError\<close>.
\<close>

definition max_rowid :: int where
  "max_rowid = 9223372036854775807"

definition sqlite_integer :: "int \<Rightarrow> bool" where
  "sqlite_integer v = (- 9223372036854775808 \<le> v \<and> v \<le> 9223372036854775807)"

definition last_rowid :: "table \<Rightarrow> int" where
  "last_rowid t = foldr max (map id_col (rows t)) (sqlite_sequence t)"

text \<open>
  \<^verbatim>\<open>INSERT INTO bookings (name,email,phone,plan,hours,price,notes,created_at)
  VALUES (?,?,?,?,?,?,?,?)\<close> with the eight bound values, and \<^verbatim>\<open>db.commit()\<close>.
\<close>

definition insert_booking ::
  "database \<Rightarrow> string option \<Rightarrow> string option \<Rightarrow> string option \<Rightarrow> string option \<Rightarrow>
     int \<Rightarrow> int \<Rightarrow> string option \<Rightarrow> string \<Rightarrow> error + database" where
  "insert_booking db nm em ph pl hrs prc nts created =
     (case map_of db ''bookings'' of
        None \<Rightarrow> Inl No_such_table
      | Some t \<Rightarrow>
          if \<not> (sqlite_integer hrs \<and> sqlite_integer prc) then Inl Int_too_large
          else if max_rowid \<le> last_rowid t then Inl Database_full
          else Inr (AList.update ''bookings''
                 \<lparr>rows = rows t @
                    [\<lparr>id_col = last_rowid t + 1, name_col = nm, email_col = em,
                      phone_col = ph, plan_col = pl, hours_col = hrs, price_col = prc,
                      notes_col = nts, created_at_col = created\<rparr>],
                  sqlite_sequence = last_rowid t + 1\<rparr> db))"

text \<open>
  \<^verbatim>\<open>SELECT id,name,email,phone,plan,hours,price,notes,created_at FROM bookings
  ORDER BY id DESC\<close> and \<^verbatim>\<open>fetchall\<close>.
\<close>

definition select_bookings :: "database \<Rightarrow> error + booking list" where
  "select_bookings db =
     (case map_of db ''bookings'' of
        None \<Rightarrow> Inl No_such_table
      | Some t \<Rightarrow> Inr (rev (sort_key id_col (rows t))))"

subsection \<open>The handlers\<close>

text \<open>
  A request, as far as the handlers read it: \<^verbatim>\<open>request.method\<close>, the form
  fields and the query arguments. A field that was not sent is \<open>None\<close>, as
  \<^verbatim>\<open>.get\<close> gives it.
\<close>

record request =
  request_method :: string
  form :: "string \<rightharpoonup> string"
  args :: "string \<rightharpoonup> string"

text \<open>
  What a handler hands back: the redirect to an endpoint after a stored booking, the
  booking page rendered with a plan and a number of hours, or the admin page rendered
  with the fetched bookings.
\<close>

datatype response =
  Redirect string
| Book_page string string
| Admin_page "booking list"

text \<open>
  The hours of a submission:
  \<^verbatim>\<open>try: hours = int(request.form.get('hours') or 1)
  except ValueError: hours = 1\<close>.
  A missing or empty field is falsy, so \<^verbatim>\<open>or\<close> gives the integer 1.
\<close>

definition form_hours :: "(string \<Rightarrow> int option) \<Rightarrow> string option \<Rightarrow> int" where
  "form_hours int_of_text field =
     (case field of
        None \<Rightarrow> 1
      | Some s \<Rightarrow>
          if s = [] then 1
          else (case int_of_text s of None \<Rightarrow> 1 | Some n \<Rightarrow> n))"

text \<open>
  \<^verbatim>\<open>book\<close>. Besides the request it reads the clock
  (\<^verbatim>\<open>datetime.utcnow().isoformat()\<close>, the parameter \<open>now\<close>) and the database file,
  whose new state is returned with the outcome. An exception of the storage layer
  leaves the handler, and nothing is stored.
\<close>

definition book ::
  "(string \<Rightarrow> int option) \<Rightarrow> string \<Rightarrow> request \<Rightarrow> database option \<Rightarrow>
     database option \<times> (error + response)" where
  "book int_of_text now req file =
     (let db = get_db file in
      if request_method req = ''POST'' then
        (let nm = form req ''name'';
             em = form req ''email'';
             ph = form req ''phone'';
             pl = form req ''plan'';
             hrs = form_hours int_of_text (form req ''hours'');
             prc = calculate_price pl hrs;
             nts = form req ''notes''
         in case insert_booking db nm em ph pl hrs prc nts now of
              Inl e \<Rightarrow> (Some db, Inl e)
            | Inr db' \<Rightarrow> (Some db', Inr (Redirect ''book'')))
      else
        (let pl = (case args req ''plan'' of None \<Rightarrow> ''group'' | Some v \<Rightarrow> v);
             hrs = (case args req ''hours'' of None \<Rightarrow> ''1'' | Some v \<Rightarrow> v)
         in (Some db, Inr (Book_page pl hrs))))"

text \<open>
  \<^verbatim>\<open>admin\<close>: without the demonstration password the request is refused before the
  database is opened; otherwise every row is fetched, newest key first.
\<close>

definition admin :: "request \<Rightarrow> database option \<Rightarrow> database option \<times> (error + response)" where
  "admin req file =
     (if args req ''pw'' \<noteq> Some ''demo-password'' then (file, Inl Unauthorized)
      else
        (let db = get_db file in
         case select_bookings db of
           Inl e \<Rightarrow> (Some db, Inl e)
         | Inr bookings \<Rightarrow> (Some db, Inr (Admin_page bookings))))"

text \<open>
  Requests served one after the other, each with its reading of the clock; the
  outcomes are collected in order. A request that fails does not stop the server.
\<close>

fun serve_bookings ::
  "(string \<Rightarrow> int option) \<Rightarrow> (string \<times> request) list \<Rightarrow> database option \<Rightarrow>
     database option \<times> (error + response) list" where
  "serve_bookings int_of_text [] file = (file, [])"
| "serve_bookings int_of_text ((now, req) # reqs) file =
     (let (file1, out) = book int_of_text now req file;
          (file2, outs) = serve_bookings int_of_text reqs file1
      in (file2, out # outs))"

text \<open>What the file holds: the rows of the table of bookings, none when there is no
  file or no such table, and the largest key given out so far.\<close>

definition stored_rows :: "database option \<Rightarrow> booking list" where
  "stored_rows file =
     (case file of
        None \<Rightarrow> []
      | Some db \<Rightarrow> (case map_of db ''bookings'' of None \<Rightarrow> [] | Some t \<Rightarrow> rows t))"

definition high_water :: "database option \<Rightarrow> int" where
  "high_water file =
     (case file of
        None \<Rightarrow> 0
      | Some db \<Rightarrow> (case map_of db ''bookings'' of None \<Rightarrow> 0 | Some t \<Rightarrow> last_rowid t))"

text \<open>A request and its outcome make a stored submission when the request was a POST and
  the handler came back with a response.\<close>

definition accepted :: "request \<times> (error + response) \<Rightarrow> bool" where
  "accepted ro =
     (request_method (fst ro) = ''POST'' \<and> (case snd ro of Inl e \<Rightarrow> False | Inr resp \<Rightarrow> True))"

subsection \<open>Facts about the calculator\<close>

lemma rate_group: "rate (Some ''group'') = 590"
  by (simp add: rate_def dict_get_def prices_def GROUP_PRICE_def)

lemma rate_individual: "rate (Some ''individual'') = 790"
  by (simp add: rate_def dict_get_def prices_def INDIVIDUAL_PRICE_def)

lemma rate_unrecognized:
  "plan \<noteq> Some ''group'' \<Longrightarrow> plan \<noteq> Some ''individual'' \<Longrightarrow> rate plan = 590"
  by (cases plan) (simp_all add: rate_def dict_get_def prices_def GROUP_PRICE_def)

lemma rate_cases: "rate plan = 590 \<or> rate plan = 790"
  using rate_group rate_individual rate_unrecognized by metis

lemma calculate_price_rate: "calculate_price plan hours = rate plan * max 1 hours"
  by (simp add: calculate_price_def rate_def)

text \<open>
  Claim C1. For the two recognised plans and every number of hours \<open>H \<ge> 1\<close> the price
  is the plan's rate times \<open>H\<close>, with rate 590 for \<open>group\<close> and 790 for
  \<open>individual\<close>; in particular eight group hours cost 4720 and sixteen individual
  hours cost 12640.
\<close>

theorem calculate_price_recognized:
  "1 \<le> H \<Longrightarrow>
     calculate_price (Some ''group'') H = rate (Some ''group'') * H \<and>
     calculate_price (Some ''individual'') H = rate (Some ''individual'') * H \<and>
     rate (Some ''group'') = 590 \<and> rate (Some ''individual'') = 790 \<and>
     calculate_price (Some ''group'') 8 = 4720 \<and>
     calculate_price (Some ''individual'') 16 = 12640"
  by (simp add: calculate_price_rate rate_group rate_individual)

theorem calculate_price_recognized_witness:
  "(1::int) \<le> 3 \<and>
   calculate_price (Some ''group'') 3 = 1770 \<and>
   calculate_price (Some ''individual'') 3 = 2370"
  using calculate_price_recognized [of 3] by simp

text \<open>
  Claim C4. An identifier other than \<open>group\<close> and \<open>individual\<close> is priced at the
  group rate: for \<open>H \<ge> 1\<close> the price is \<open>rate group * H\<close>; no error arises.
\<close>

theorem calculate_price_unrecognized:
  "U \<noteq> ''group'' \<Longrightarrow> U \<noteq> ''individual'' \<Longrightarrow> 1 \<le> H \<Longrightarrow>
     calculate_price (Some U) H = rate (Some ''group'') * H \<and>
     calculate_price (Some U) H = GROUP_PRICE * H"
  by (simp add: calculate_price_rate rate_group rate_unrecognized GROUP_PRICE_def)

theorem calculate_price_unrecognized_witness:
  "''vip'' \<noteq> ''group'' \<and> ''vip'' \<noteq> ''individual'' \<and> (1::int) \<le> 2 \<and>
   calculate_price (Some ''vip'') 2 = 1180"
  using calculate_price_unrecognized [of "''vip''" 2] by (simp add: rate_group)

text \<open>
  Claim C5. The calculator has a result on every plan (recognised, unrecognised or
  missing) and every integer number of hours, and the result is never negative: it is
  at least one hour at the group rate. The model has no error branch because none of
  the operations of the source's one expression can raise on these arguments, and as a
  function of its arguments alone it has no effect on any state.
\<close>

theorem calculate_price_nonneg:
  "0 \<le> calculate_price plan hours \<and> GROUP_PRICE \<le> calculate_price plan hours"
proof -
  have "590 * 1 \<le> rate plan * max 1 hours"
    using rate_cases [of plan] by (intro mult_mono) auto
  then show ?thesis
    by (simp add: calculate_price_rate GROUP_PRICE_def)
qed

subsection \<open>Facts about the store\<close>

lemma foldr_max_ge: "a \<le> foldr max xs (a::int)"
  by (induction xs) auto

lemma foldr_max_mem: "x \<in> set xs \<Longrightarrow> x \<le> foldr max xs (a::int)"
  by (induction xs) auto

lemma foldr_max_snoc: "foldr max (xs @ [y]) (a::int) = max (foldr max xs a) y"
  by (induction xs) auto

lemma last_rowid_ge_id: "b \<in> set (rows t) \<Longrightarrow> id_col b \<le> last_rowid t"
  by (simp add: last_rowid_def foldr_max_mem)

lemma foldr_max_absorb: "\<forall>x \<in> set xs. x \<le> m \<Longrightarrow> foldr max xs (m::int) = m"
  by (induction xs) auto

lemma last_rowid_snoc:
  assumes "id_col b = last_rowid t + 1"
  shows "last_rowid \<lparr>rows = rows t @ [b], sqlite_sequence = last_rowid t + 1\<rparr> = last_rowid t + 1"
proof -
  have "\<forall>x \<in> set (map id_col (rows t)). x \<le> last_rowid t + 1"
    using last_rowid_ge_id [of _ t] by fastforce
  then have "foldr max (map id_col (rows t)) (last_rowid t + 1) = last_rowid t + 1"
    by (rule foldr_max_absorb)
  then show ?thesis
    by (simp add: last_rowid_def [of "\<lparr>rows = rows t @ [b], sqlite_sequence = last_rowid t + 1\<rparr>"]
        foldr_max_snoc assms)
qed

lemma insert_booking_Inr:
  assumes "insert_booking db nm em ph pl hrs prc nts created = Inr db'"
  shows "\<exists>t. map_of db ''bookings'' = Some t \<and> sqlite_integer hrs \<and> sqlite_integer prc \<and>
           last_rowid t < max_rowid \<and>
           db' = AList.update ''bookings''
                 \<lparr>rows = rows t @
                    [\<lparr>id_col = last_rowid t + 1, name_col = nm, email_col = em,
                      phone_col = ph, plan_col = pl, hours_col = hrs, price_col = prc,
                      notes_col = nts, created_at_col = created\<rparr>],
                  sqlite_sequence = last_rowid t + 1\<rparr> db"
  using assms by (auto simp: insert_booking_def split: option.splits if_splits)

lemma insert_booking_succeeds:
  assumes "map_of db ''bookings'' = Some t" and "sqlite_integer hrs" and "sqlite_integer prc"
    and "last_rowid t < max_rowid"
  shows "insert_booking db nm em ph pl hrs prc nts created =
         Inr (AList.update ''bookings''
                 \<lparr>rows = rows t @
                    [\<lparr>id_col = last_rowid t + 1, name_col = nm, email_col = em,
                      phone_col = ph, plan_col = pl, hours_col = hrs, price_col = prc,
                      notes_col = nts, created_at_col = created\<rparr>],
                  sqlite_sequence = last_rowid t + 1\<rparr> db)"
  using assms by (simp add: insert_booking_def)

lemma stored_rows_get_db: "stored_rows (Some (get_db file)) = stored_rows file"
  by (cases "file") (simp_all add: stored_rows_def get_db_def init_db_def)

lemma high_water_get_db: "high_water (Some (get_db file)) = high_water file"
  by (cases "file") (simp_all add: high_water_def get_db_def init_db_def last_rowid_def)

lemma stored_rows_update:
  "stored_rows (Some (AList.update ''bookings'' t db)) = rows t"
  by (simp add: stored_rows_def update_conv')

lemma high_water_update:
  "high_water (Some (AList.update ''bookings'' t db)) = last_rowid t"
  by (simp add: high_water_def update_conv')

lemma stored_rows_Some: "map_of db ''bookings'' = Some t \<Longrightarrow> stored_rows (Some db) = rows t"
  by (simp add: stored_rows_def)

lemma high_water_Some: "map_of db ''bookings'' = Some t \<Longrightarrow> high_water (Some db) = last_rowid t"
  by (simp add: high_water_def)

text \<open>A stored submission: what a successful POST leaves behind.\<close>

lemma book_post_Inr:
  assumes "request_method req = ''POST''" and "book p now req file = (file', Inr resp)"
  shows "\<exists>b. stored_rows file' = stored_rows file @ [b] \<and>
             high_water file' = high_water file + 1 \<and>
             b = \<lparr>id_col = high_water file + 1, name_col = form req ''name'',
                  email_col = form req ''email'', phone_col = form req ''phone'',
                  plan_col = form req ''plan'',
                  hours_col = form_hours p (form req ''hours''),
                  price_col = calculate_price (form req ''plan'') (form_hours p (form req ''hours'')),
                  notes_col = form req ''notes'', created_at_col = now\<rparr>"
proof -
  let ?h = "form_hours p (form req ''hours'')"
  let ?ins = "insert_booking (get_db file) (form req ''name'') (form req ''email'')
      (form req ''phone'') (form req ''plan'') ?h (calculate_price (form req ''plan'') ?h)
      (form req ''notes'') now"
  from assms obtain db' where ins: "?ins = Inr db'" and f: "file' = Some db'"
    by (auto simp: book_def Let_def split: sum.splits)
  from insert_booking_Inr [OF ins] obtain t where
    t: "map_of (get_db file) ''bookings'' = Some t" and
    db': "db' = AList.update ''bookings''
                 \<lparr>rows = rows t @
                    [\<lparr>id_col = last_rowid t + 1, name_col = form req ''name'',
                      email_col = form req ''email'',
                      phone_col = form req ''phone'', plan_col = form req ''plan'',
                      hours_col = ?h, price_col = calculate_price (form req ''plan'') ?h,
                      notes_col = form req ''notes'', created_at_col = now\<rparr>],
                  sqlite_sequence = last_rowid t + 1\<rparr> (get_db file)"
    by blast
  have r: "stored_rows file = rows t"
    using stored_rows_Some [OF t] by (simp add: stored_rows_get_db)
  have h: "high_water file = last_rowid t"
    using high_water_Some [OF t] by (simp add: high_water_get_db)
  show ?thesis
    unfolding f db' stored_rows_update high_water_update r h
    by (simp add: last_rowid_snoc)
qed

lemma book_not_stored:
  assumes "book p now req file = (file', out)"
    and "request_method req \<noteq> ''POST'' \<or> (\<exists>e. out = Inl e)"
  shows "stored_rows file' = stored_rows file \<and> high_water file' = high_water file"
  using assms
  by (auto simp: book_def Let_def stored_rows_get_db high_water_get_db split: sum.splits if_splits)

lemma sorted_map_le_last:
  fixes f :: "'a \<Rightarrow> int"
  shows "sorted (map f ys) \<Longrightarrow> y \<in> set ys \<Longrightarrow> f y \<le> f (last ys)"
  by (induction ys) auto

lemma rev_sort_key_snoc:
  fixes f :: "'a \<Rightarrow> int"
  assumes "\<forall>y \<in> set xs. f y < f x"
  shows "\<exists>bs. rev (sort_key f (xs @ [x])) = x # bs \<and> mset bs = mset xs"
proof -
  let ?ys = "sort_key f (xs @ [x])"
  have "set ?ys = insert x (set xs)" by simp
  then have ne: "?ys \<noteq> []" by (metis empty_iff insertI1 list.set(1))
  have srt: "sorted (map f ?ys)" by (rule sorted_sort_key)
  have "last ?ys \<in> set ?ys" using ne by (rule last_in_set)
  then have mem: "last ?ys = x \<or> last ?ys \<in> set xs" by auto
  have "x \<in> set ?ys" by simp
  with srt have "f x \<le> f (last ?ys)" by (rule sorted_map_le_last)
  with mem assms have l: "last ?ys = x" by fastforce
  define zs where "zs = butlast ?ys"
  have eq: "?ys = zs @ [x]"
    using append_butlast_last_id [OF ne] l by (simp add: zs_def)
  have "mset (zs @ [x]) = mset (xs @ [x])"
    unfolding eq [symmetric] by simp
  then have "mset zs = mset xs" by simp
  then have "mset (rev zs) = mset xs" by simp
  moreover have "rev ?ys = x # rev zs"
    unfolding eq by simp
  ultimately show ?thesis by blast
qed

lemma stored_rows_le_high_water: "b \<in> set (stored_rows file) \<Longrightarrow> id_col b \<le> high_water file"
  by (auto simp: stored_rows_def high_water_def last_rowid_ge_id split: option.splits)

lemma book_step:
  assumes "book p now req file = (file1, out)"
  shows "if accepted (req, out)
         then \<exists>b. stored_rows file1 = stored_rows file @ [b] \<and> id_col b = high_water file + 1 \<and>
                high_water file1 = high_water file + 1
         else stored_rows file1 = stored_rows file \<and> high_water file1 = high_water file"
proof (cases "accepted (req, out)")
  case True
  then obtain resp where "request_method req = ''POST''" and "out = Inr resp"
    by (auto simp: accepted_def split: sum.splits)
  with book_post_Inr [of req p now "file" file1 resp] assms True show ?thesis
    by auto
next
  case False
  then have "request_method req \<noteq> ''POST'' \<or> (\<exists>e. out = Inl e)"
    by (auto simp: accepted_def split: sum.splits)
  with book_not_stored [OF assms] False show ?thesis by simp
qed

lemma serve_bookings_ids:
  "serve_bookings p reqs file = (file', outs) \<Longrightarrow>
   \<exists>new. stored_rows file' = stored_rows file @ new \<and>
     map id_col new = [high_water file + 1 .. high_water file + int (length new)] \<and>
     high_water file' = high_water file + int (length new) \<and>
     length new = length (filter accepted (zip (map snd reqs) outs)) \<and>
     length outs = length reqs"
proof (induction reqs arbitrary: "file" file' outs)
  case Nil
  then show ?case by simp
next
  case (Cons nr reqs)
  obtain now req where nr: "nr = (now, req)" by (cases nr)
  obtain file1 out where b: "book p now req file = (file1, out)"
    by (cases "book p now req file")
  obtain file2 outs' where s: "serve_bookings p reqs file1 = (file2, outs')"
    by (cases "serve_bookings p reqs file1")
  from Cons.prems have f: "file' = file2" and o: "outs = out # outs'"
    by (simp_all add: nr b s)
  from Cons.IH [OF s] obtain new' where
    r: "stored_rows file2 = stored_rows file1 @ new'" and
    i: "map id_col new' = [high_water file1 + 1 .. high_water file1 + int (length new')]" and
    h: "high_water file2 = high_water file1 + int (length new')" and
    l: "length new' = length (filter accepted (zip (map snd reqs) outs'))" and
    n: "length outs' = length reqs"
    by blast
  show ?case
  proof (cases "accepted (req, out)")
    case True
    with book_step [OF b] obtain b' where
      r1: "stored_rows file1 = stored_rows file @ [b']" and
      i1: "id_col b' = high_water file + 1" and
      h1: "high_water file1 = high_water file + 1"
      by auto
    have "[high_water file + 1 .. high_water file + int (length (b' # new'))] =
          (high_water file + 1) # [high_water file + 1 + 1 .. high_water file + 1 + int (length new')]"
      by (subst upto_rec1) (simp_all add: algebra_simps)
    then have "map id_col (b' # new') =
          [high_water file + 1 .. high_water file + int (length (b' # new'))]"
      using i i1 h1 by simp
    moreover have "stored_rows file' = stored_rows file @ (b' # new')"
      by (simp add: f r r1)
    moreover have "high_water file' = high_water file + int (length (b' # new'))"
      by (simp add: f h h1)
    moreover have "length (b' # new') = length (filter accepted (zip (map snd (nr # reqs)) outs))"
      using True by (simp add: nr o l)
    moreover have "length outs = length (nr # reqs)" by (simp add: o n)
    ultimately show ?thesis by blast
  next
    case False
    with book_step [OF b] have
      r1: "stored_rows file1 = stored_rows file" and h1: "high_water file1 = high_water file"
      by auto
    have "length new' = length (filter accepted (zip (map snd (nr # reqs)) outs))"
      using False by (simp add: nr o l)
    moreover have "length outs = length (nr # reqs)" by (simp add: o n)
    ultimately show ?thesis
      using r i h by (auto simp: f r1 h1)
  qed
qed

lemmas eval_defs = book_def admin_def get_db_def init_db_def insert_booking_def select_bookings_def
  form_hours_def py_int_def strip_def is_space_def is_digit_def digit_val_def
  calculate_price_def dict_get_def prices_def GROUP_PRICE_def INDIVIDUAL_PRICE_def
  sqlite_integer_def max_rowid_def last_rowid_def stored_rows_def high_water_def Let_def

subsection \<open>The claims about the store and the handlers\<close>

text \<open>
  Claim C2 (every stored booking has hours at least 1 and a price of rate times its
  hours). The handler stores the hours as they were parsed, and only the price is
  computed from the hours raised to 1: a submission for the group plan with hours
  \<open>0\<close> is stored with hours 0 and price 590, which is not \<open>590 * 0\<close>.
\<close>

theorem book_zero_hours:
  "book py_int ''2024-01-01T00:00:00''
     \<lparr>request_method = ''POST'',
      form = [''name'' \<mapsto> ''Anna'', ''email'' \<mapsto> ''a@x.com'', ''plan'' \<mapsto> ''group'',
              ''hours'' \<mapsto> ''0''],
      args = Map.empty\<rparr> None =
   (Some [(''bookings'',
      \<lparr>rows = [\<lparr>id_col = 1, name_col = Some ''Anna'', email_col = Some ''a@x.com'',
                phone_col = None, plan_col = Some ''group'', hours_col = 0,
                price_col = 590, notes_col = None,
                created_at_col = ''2024-01-01T00:00:00''\<rparr>],
       sqlite_sequence = 1\<rparr>)],
    Inr (Redirect ''book'')) \<and>
   rate (Some ''group'') * 0 \<noteq> 590"
  by (simp add: eval_defs)

text \<open>
  Claim C3. Hours that are no valid number are made 1 and raise nothing: the
  calculator prices every \<open>H \<le> 0\<close> as one hour, and a submission whose hours field is
  missing, empty or not read as an integer by the conversion is handled with hours 1.
  With the table of bookings there and a key left to give out (the two ways the
  storage layer can refuse any insertion) the submission is stored, with hours 1 and
  the price of one hour, and answered with the redirect.
\<close>

theorem invalid_hours_coerced:
  assumes "field = None \<or> field = Some [] \<or> (\<exists>s. field = Some s \<and> p s = None)"
    and "form req ''hours'' = field"
    and "request_method req = ''POST''"
    and "map_of (get_db file) ''bookings'' = Some t"
    and "last_rowid t < max_rowid"
  shows "(\<forall>P H. H \<le> 0 \<longrightarrow> calculate_price P H = rate P * 1) \<and>
         form_hours p field = 1 \<and>
         (\<exists>file' b. book p now req file = (file', Inr (Redirect ''book'')) \<and>
            stored_rows file' = stored_rows file @ [b] \<and>
            hours_col b = 1 \<and> price_col b = rate (form req ''plan'') * 1)"
proof -
  have calc: "\<forall>P H. H \<le> 0 \<longrightarrow> calculate_price P H = rate P * 1"
    by (simp add: calculate_price_rate max_def)
  have h: "form_hours p field = 1"
    using assms(1) by (auto simp: form_hours_def)
  let ?pl = "form req ''plan''"
  have fits: "sqlite_integer 1" "sqlite_integer (calculate_price ?pl 1)"
    using rate_cases [of ?pl] by (auto simp: sqlite_integer_def calculate_price_rate)
  have ins: "\<exists>db'. insert_booking (get_db file) (form req ''name'') (form req ''email'')
      (form req ''phone'') ?pl 1 (calculate_price ?pl 1) (form req ''notes'') now = Inr db'"
    using insert_booking_succeeds [OF assms(4) fits assms(5)] by simp
  then obtain file' where b: "book p now req file = (file', Inr (Redirect ''book''))"
    using h assms(2,3) by (auto simp: book_def Let_def)
  from book_post_Inr [OF assms(3) b] h assms(2)
  have "\<exists>b. stored_rows file' = stored_rows file @ [b] \<and>
            hours_col b = 1 \<and> price_col b = rate ?pl * 1"
    by (auto simp: calculate_price_rate)
  with calc h b show ?thesis by blast
qed

theorem invalid_hours_coerced_witness:
  "book py_int ''2024-01-01T00:00:00''
     \<lparr>request_method = ''POST'',
      form = [''name'' \<mapsto> ''Anna'', ''plan'' \<mapsto> ''individual'', ''hours'' \<mapsto> ''two''],
      args = Map.empty\<rparr> None =
   (Some [(''bookings'',
      \<lparr>rows = [\<lparr>id_col = 1, name_col = Some ''Anna'', email_col = None,
                phone_col = None, plan_col = Some ''individual'', hours_col = 1,
                price_col = 790, notes_col = None,
                created_at_col = ''2024-01-01T00:00:00''\<rparr>],
       sqlite_sequence = 1\<rparr>)],
    Inr (Redirect ''book'')) \<and>
   py_int ''two'' = None \<and>
   form_hours py_int (Some ''two'') = 1 \<and>
   calculate_price (Some ''individual'') (- 3) = 790"
proof -
  let ?req = "\<lparr>request_method = ''POST'',
      form = [''name'' \<mapsto> ''Anna'', ''plan'' \<mapsto> ''individual'', ''hours'' \<mapsto> ''two''],
      args = Map.empty\<rparr>"
  let ?t = "\<lparr>rows = [], sqlite_sequence = 0\<rparr>"
  have p: "py_int ''two'' = None"
    by (simp add: py_int_def strip_def is_space_def is_digit_def)
  have 1: "Some ''two'' = None \<or> Some ''two'' = Some [] \<or> (\<exists>s. Some ''two'' = Some s \<and> py_int s = None)"
    using p by simp
  have 2: "form ?req ''hours'' = Some ''two''" by simp
  have 3: "request_method ?req = ''POST''" by simp
  have 4: "map_of (get_db None) ''bookings'' = Some ?t"
    by (simp add: get_db_def init_db_def)
  have 5: "last_rowid ?t < max_rowid"
    by (simp add: last_rowid_def max_rowid_def)
  from invalid_hours_coerced [OF 1 2 3 4 5, of "''2024-01-01T00:00:00''"]
  have "form_hours py_int (Some ''two'') = 1 \<and> calculate_price (Some ''individual'') (- 3) = 790"
    by (simp add: rate_individual)
  moreover have "book py_int ''2024-01-01T00:00:00'' ?req None =
   (Some [(''bookings'',
      \<lparr>rows = [\<lparr>id_col = 1, name_col = Some ''Anna'', email_col = None,
                phone_col = None, plan_col = Some ''individual'', hours_col = 1,
                price_col = 790, notes_col = None,
                created_at_col = ''2024-01-01T00:00:00''\<rparr>],
       sqlite_sequence = 1\<rparr>)],
    Inr (Redirect ''book''))"
    by (simp add: eval_defs)
  ultimately show ?thesis using p by simp
qed

text \<open>
  Claim C6. Insertion followed by listing: on every database, when the insertion of
  the values \<open>R\<close> goes through, the admin listing of the new database succeeds and its
  first entry carries exactly the name, email, phone, plan, hours, price and notes of
  \<open>R\<close> (and the time stamp bound with them) under a fresh key, larger than the key of
  every other entry listed; the other entries are the rows stored before.
\<close>

theorem insert_list_round_trip:
  assumes "insert_booking db nm em ph pl hrs prc nts created = Inr db'"
    and "args areq ''pw'' = Some ''demo-password''"
  shows "\<exists>b bs. admin areq (Some db') = (Some db', Inr (Admin_page (b # bs))) \<and>
           name_col b = nm \<and> email_col b = em \<and> phone_col b = ph \<and> plan_col b = pl \<and>
           hours_col b = hrs \<and> price_col b = prc \<and> notes_col b = nts \<and>
           created_at_col b = created \<and>
           id_col b = high_water (Some db) + 1 \<and>
           (\<forall>c \<in> set bs. id_col c < id_col b) \<and>
           mset bs = mset (stored_rows (Some db))"
proof -
  from insert_booking_Inr [OF assms(1)] obtain t where
    t: "map_of db ''bookings'' = Some t" and
    db': "db' = AList.update ''bookings''
                 \<lparr>rows = rows t @
                    [\<lparr>id_col = last_rowid t + 1, name_col = nm, email_col = em,
                      phone_col = ph, plan_col = pl, hours_col = hrs, price_col = prc,
                      notes_col = nts, created_at_col = created\<rparr>],
                  sqlite_sequence = last_rowid t + 1\<rparr> db"
    by blast
  let ?b = "\<lparr>id_col = last_rowid t + 1, name_col = nm, email_col = em,
             phone_col = ph, plan_col = pl, hours_col = hrs, price_col = prc,
             notes_col = nts, created_at_col = created\<rparr>"
  have "\<forall>y \<in> set (rows t). id_col y < id_col ?b"
    using last_rowid_ge_id [of _ t] by fastforce
  from rev_sort_key_snoc [OF this] obtain bs where
    bs: "rev (sort_key id_col (rows t @ [?b])) = ?b # bs" and m: "mset bs = mset (rows t)"
    by blast
  have sel: "select_bookings db' = Inr (?b # bs)"
    by (simp add: select_bookings_def db' update_conv' bs)
  have adm: "admin areq (Some db') = (Some db', Inr (Admin_page (?b # bs)))"
    by (simp add: admin_def assms(2) get_db_def sel)
  have "set bs = set (rows t)" using m by (rule mset_eq_setD)
  then have small: "\<forall>c \<in> set bs. id_col c < id_col ?b"
    using last_rowid_ge_id [of _ t] by fastforce
  have "id_col ?b = high_water (Some db) + 1"
    by (simp add: high_water_Some [OF t])
  moreover have "mset bs = mset (stored_rows (Some db))"
    by (simp add: stored_rows_Some [OF t] m)
  ultimately show ?thesis using adm small
    by (intro exI [of _ ?b] exI [of _ bs]) simp
qed

theorem insert_list_round_trip_witness:
  "insert_booking
     [(''bookings'',
       \<lparr>rows = [\<lparr>id_col = 4, name_col = Some ''Boris'', email_col = Some ''b@x.com'',
                 phone_col = None, plan_col = Some ''individual'', hours_col = 1,
                 price_col = 790, notes_col = None, created_at_col = ''2024-01-01T10:00:00''\<rparr>],
        sqlite_sequence = 7\<rparr>)]
     (Some ''Anna'') (Some ''a@x.com'') None (Some ''group'') 2 1180 None ''2024-01-02T09:30:00'' =
   Inr [(''bookings'',
       \<lparr>rows = [\<lparr>id_col = 4, name_col = Some ''Boris'', email_col = Some ''b@x.com'',
                 phone_col = None, plan_col = Some ''individual'', hours_col = 1,
                 price_col = 790, notes_col = None, created_at_col = ''2024-01-01T10:00:00''\<rparr>,
                \<lparr>id_col = 8, name_col = Some ''Anna'', email_col = Some ''a@x.com'',
                 phone_col = None, plan_col = Some ''group'', hours_col = 2,
                 price_col = 1180, notes_col = None, created_at_col = ''2024-01-02T09:30:00''\<rparr>],
        sqlite_sequence = 8\<rparr>)] \<and>
   (\<exists>b bs. admin \<lparr>request_method = ''GET'', form = Map.empty, args = [''pw'' \<mapsto> ''demo-password'']\<rparr>
       (Some [(''bookings'',
       \<lparr>rows = [\<lparr>id_col = 4, name_col = Some ''Boris'', email_col = Some ''b@x.com'',
                 phone_col = None, plan_col = Some ''individual'', hours_col = 1,
                 price_col = 790, notes_col = None, created_at_col = ''2024-01-01T10:00:00''\<rparr>,
                \<lparr>id_col = 8, name_col = Some ''Anna'', email_col = Some ''a@x.com'',
                 phone_col = None, plan_col = Some ''group'', hours_col = 2,
                 price_col = 1180, notes_col = None, created_at_col = ''2024-01-02T09:30:00''\<rparr>],
        sqlite_sequence = 8\<rparr>)]) =
      (Some [(''bookings'',
       \<lparr>rows = [\<lparr>id_col = 4, name_col = Some ''Boris'', email_col = Some ''b@x.com'',
                 phone_col = None, plan_col = Some ''individual'', hours_col = 1,
                 price_col = 790, notes_col = None, created_at_col = ''2024-01-01T10:00:00''\<rparr>,
                \<lparr>id_col = 8, name_col = Some ''Anna'', email_col = Some ''a@x.com'',
                 phone_col = None, plan_col = Some ''group'', hours_col = 2,
                 price_col = 1180, notes_col = None, created_at_col = ''2024-01-02T09:30:00''\<rparr>],
        sqlite_sequence = 8\<rparr>)], Inr (Admin_page (b # bs))) \<and>
      name_col b = Some ''Anna'' \<and> email_col b = Some ''a@x.com'' \<and> phone_col b = None \<and>
      plan_col b = Some ''group'' \<and> hours_col b = 2 \<and> price_col b = 1180 \<and>
      notes_col b = None \<and> created_at_col b = ''2024-01-02T09:30:00'' \<and> id_col b = 8)"
proof -
  let ?old = "\<lparr>id_col = 4, name_col = Some ''Boris'', email_col = Some ''b@x.com'',
                 phone_col = None, plan_col = Some ''individual'', hours_col = 1,
                 price_col = 790, notes_col = None, created_at_col = ''2024-01-01T10:00:00''\<rparr>"
  let ?new = "\<lparr>id_col = 8, name_col = Some ''Anna'', email_col = Some ''a@x.com'',
                 phone_col = None, plan_col = Some ''group'', hours_col = 2,
                 price_col = 1180, notes_col = None, created_at_col = ''2024-01-02T09:30:00''\<rparr>"
  let ?db = "[(''bookings'', \<lparr>rows = [?old], sqlite_sequence = 7\<rparr>)]"
  let ?db' = "[(''bookings'', \<lparr>rows = [?old, ?new], sqlite_sequence = 8\<rparr>)]"
  let ?areq = "\<lparr>request_method = ''GET'', form = Map.empty, args = [''pw'' \<mapsto> ''demo-password'']\<rparr>"
  have ins: "insert_booking ?db (Some ''Anna'') (Some ''a@x.com'') None (Some ''group'') 2 1180 None
      ''2024-01-02T09:30:00'' = Inr ?db'"
    by (simp add: insert_booking_def sqlite_integer_def max_rowid_def last_rowid_def)
  have pw: "args ?areq ''pw'' = Some ''demo-password''" by simp
  have hw: "high_water (Some ?db) = 7"
    by (simp add: high_water_def last_rowid_def)
  from insert_list_round_trip [OF ins pw] obtain b bs where
    adm: "admin ?areq (Some ?db') = (Some ?db', Inr (Admin_page (b # bs)))" and
    flds: "name_col b = Some ''Anna''" "email_col b = Some ''a@x.com''" "phone_col b = None"
      "plan_col b = Some ''group''" "hours_col b = 2" "price_col b = 1180"
      "notes_col b = None" "created_at_col b = ''2024-01-02T09:30:00''" and
    key: "id_col b = high_water (Some ?db) + 1"
    by blast
  from key have "id_col b = 8" by (simp add: hw)
  with ins adm flds show ?thesis by blast
qed

text \<open>
  Claim C7. Keys are given out in order: whatever requests the booking handler serves
  one after the other, the rows stored before stay as they are, one row is added for
  each accepted submission, in the order of the submissions, and the keys of the added
  rows are the consecutive integers that follow the largest key given out before. So
  they are pairwise different, strictly increasing, without gaps, and larger than
  every key already in the table.
\<close>

theorem monotonic_identifiers:
  assumes "serve_bookings p reqs file = (file', outs)"
  shows "\<exists>new. stored_rows file' = stored_rows file @ new \<and>
     length new = length (filter accepted (zip (map snd reqs) outs)) \<and>
     map id_col new = [high_water file + 1 .. high_water file + int (length new)] \<and>
     distinct (map id_col new) \<and> sorted_wrt (<) (map id_col new) \<and>
     (\<forall>b \<in> set (stored_rows file). \<forall>c \<in> set new. id_col b < id_col c)"
proof -
  from serve_bookings_ids [OF assms] obtain new where
    r: "stored_rows file' = stored_rows file @ new" and
    i: "map id_col new = [high_water file + 1 .. high_water file + int (length new)]" and
    l: "length new = length (filter accepted (zip (map snd reqs) outs))"
    by blast
  have d: "distinct (map id_col new)" and s: "sorted_wrt (<) (map id_col new)"
    unfolding i by simp_all
  have "\<forall>c \<in> set new. high_water file < id_col c"
  proof
    fix c assume "c \<in> set new"
    then have "id_col c \<in> set (map id_col new)" by simp
    then show "high_water file < id_col c" unfolding i by simp
  qed
  then have "\<forall>b \<in> set (stored_rows file). \<forall>c \<in> set new. id_col b < id_col c"
    using stored_rows_le_high_water [of _ "file"] by fastforce
  with r l i d s show ?thesis by blast
qed

theorem monotonic_identifiers_witness:
  "serve_bookings py_int
     [(''t1'', \<lparr>request_method = ''POST'',
        form = [''name'' \<mapsto> ''A'', ''plan'' \<mapsto> ''group'', ''hours'' \<mapsto> ''2''],
        args = Map.empty\<rparr>),
      (''t2'', \<lparr>request_method = ''GET'', form = Map.empty, args = Map.empty\<rparr>),
      (''t3'', \<lparr>request_method = ''POST'', form = [''name'' \<mapsto> ''B'', ''plan'' \<mapsto> ''individual''],
        args = Map.empty\<rparr>)] None =
   (Some [(''bookings'',
      \<lparr>rows = [\<lparr>id_col = 1, name_col = Some ''A'', email_col = None, phone_col = None,
        plan_col = Some ''group'', hours_col = 2, price_col = 1180, notes_col = None,
        created_at_col = ''t1''\<rparr>,
       \<lparr>id_col = 2, name_col = Some ''B'', email_col = None, phone_col = None,
        plan_col = Some ''individual'', hours_col = 1, price_col = 790, notes_col = None,
        created_at_col = ''t3''\<rparr>],
       sqlite_sequence = 2\<rparr>)],
    [Inr (Redirect ''book''), Inr (Book_page ''group'' ''1''), Inr (Redirect ''book'')]) \<and>
   (\<exists>new. [\<lparr>id_col = 1, name_col = Some ''A'', email_col = None, phone_col = None,
        plan_col = Some ''group'', hours_col = 2, price_col = 1180, notes_col = None,
        created_at_col = ''t1''\<rparr>,
       \<lparr>id_col = 2, name_col = Some ''B'', email_col = None, phone_col = None,
        plan_col = Some ''individual'', hours_col = 1, price_col = 790, notes_col = None,
        created_at_col = ''t3''\<rparr>] = [] @ new \<and>
      length new = 2 \<and> map id_col new = [1, 2])"
proof -
  let ?r1 = "\<lparr>request_method = ''POST'',
        form = [''name'' \<mapsto> ''A'', ''plan'' \<mapsto> ''group'', ''hours'' \<mapsto> ''2''],
        args = Map.empty\<rparr>"
  let ?r2 = "\<lparr>request_method = ''GET'', form = Map.empty, args = Map.empty\<rparr>"
  let ?r3 = "\<lparr>request_method = ''POST'', form = [''name'' \<mapsto> ''B'', ''plan'' \<mapsto> ''individual''],
        args = Map.empty\<rparr>"
  let ?a = "\<lparr>id_col = 1, name_col = Some ''A'', email_col = None, phone_col = None,
        plan_col = Some ''group'', hours_col = 2, price_col = 1180, notes_col = None,
        created_at_col = ''t1''\<rparr>"
  let ?b = "\<lparr>id_col = 2, name_col = Some ''B'', email_col = None, phone_col = None,
        plan_col = Some ''individual'', hours_col = 1, price_col = 790, notes_col = None,
        created_at_col = ''t3''\<rparr>"
  let ?f1 = "Some [(''bookings'', \<lparr>rows = [?a], sqlite_sequence = 1\<rparr>)]"
  let ?f2 = "Some [(''bookings'', \<lparr>rows = [?a, ?b], sqlite_sequence = 2\<rparr>)]"
  let ?outs = "[Inr (Redirect ''book''), Inr (Book_page ''group'' ''1''), Inr (Redirect ''book'')]"
  have s1: "book py_int ''t1'' ?r1 None = (?f1, Inr (Redirect ''book''))"
    by (simp add: eval_defs)
  have s2: "book py_int ''t2'' ?r2 ?f1 = (?f1, Inr (Book_page ''group'' ''1''))"
    by (simp add: book_def get_db_def)
  have s3: "book py_int ''t3'' ?r3 ?f1 = (?f2, Inr (Redirect ''book''))"
    by (simp add: eval_defs)
  have run: "serve_bookings py_int [(''t1'', ?r1), (''t2'', ?r2), (''t3'', ?r3)] None = (?f2, ?outs)"
    by (simp add: s1 s2 s3)
  have n: "length (filter accepted (zip (map snd [(''t1'', ?r1), (''t2'', ?r2), (''t3'', ?r3)]) ?outs)) = 2"
    by (simp add: accepted_def)
  have s0: "stored_rows None = []" and h0: "high_water None = 0"
    by (simp_all add: stored_rows_def high_water_def)
  have st: "stored_rows ?f2 = [?a, ?b]"
    by (simp add: stored_rows_def)
  have u: "[0 + 1 .. 0 + int 2] = [1, 2]"
    by (simp add: upto_rec1)
  from monotonic_identifiers [OF run] obtain new where
    "stored_rows ?f2 = stored_rows None @ new" and
    "length new = length (filter accepted (zip (map snd [(''t1'', ?r1), (''t2'', ?r2), (''t3'', ?r3)]) ?outs))" and
    "map id_col new = [high_water None + 1 .. high_water None + int (length new)]"
    by blast
  then have "[?a, ?b] = [] @ new \<and> length new = 2 \<and> map id_col new = [1, 2]"
    unfolding n s0 h0 st using u by simp
  then have "\<exists>new. [?a, ?b] = [] @ new \<and> length new = 2 \<and> map id_col new = [1, 2]" ..
  with run show ?thesis by (rule conjI)
qed

text \<open>
  Claim C8. The listing reads and does not write: whatever the request and the state
  of the file, the rows stored and the largest key given out are the same after
  \<^verbatim>\<open>admin\<close> as before, and a file that exists is left exactly as it was (opening a
  missing file creates it with an empty table). A page that is rendered lists the
  stored rows, each as often as it is stored, by descending key; it is rendered
  whenever the password is right and the table exists.
\<close>

theorem admin_read_only:
  assumes "admin req file = (file', out)"
  shows "stored_rows file' = stored_rows file \<and>
         high_water file' = high_water file \<and>
         (file \<noteq> None \<longrightarrow> file' = file) \<and>
         (\<forall>bs. out = Inr (Admin_page bs) \<longrightarrow>
            mset bs = mset (stored_rows file) \<and>
            sorted_wrt (\<lambda>a b. id_col b \<le> id_col a) bs) \<and>
         (args req ''pw'' = Some ''demo-password'' \<and> map_of (get_db file) ''bookings'' \<noteq> None \<longrightarrow>
            (\<exists>bs. out = Inr (Admin_page bs)))"
proof (cases "args req ''pw'' = Some ''demo-password''")
  case False
  with assms have "file' = file" and "out = Inl Unauthorized"
    by (simp_all add: admin_def)
  with False show ?thesis by simp
next
  case True
  have fe: "file \<noteq> None \<longrightarrow> Some (get_db file) = file"
    by (cases "file") (simp_all add: get_db_def)
  show ?thesis
  proof (cases "map_of (get_db file) ''bookings''")
    case None
    with assms True have "file' = Some (get_db file)" and "out = Inl No_such_table"
      by (simp_all add: admin_def select_bookings_def)
    then show ?thesis
      using None fe by (simp add: stored_rows_get_db high_water_get_db)
  next
    case (Some t)
    let ?bs = "rev (sort_key id_col (rows t))"
    from assms True Some have f: "file' = Some (get_db file)" and o: "out = Inr (Admin_page ?bs)"
      by (simp_all add: admin_def select_bookings_def)
    have r: "stored_rows file = rows t"
      using stored_rows_Some [OF Some] by (simp add: stored_rows_get_db)
    have "sorted (map id_col (sort_key id_col (rows t)))" by (rule sorted_sort_key)
    then have "sorted_wrt (\<lambda>a b. id_col b \<le> id_col a) ?bs"
      by (simp add: sorted_wrt_rev sorted_map)
    moreover have "mset ?bs = mset (stored_rows file)" by (simp add: r)
    ultimately show ?thesis
      using f o fe by (simp add: stored_rows_get_db high_water_get_db)
  qed
qed

theorem admin_read_only_witness:
  "admin \<lparr>request_method = ''GET'', form = Map.empty, args = [''pw'' \<mapsto> ''demo-password'']\<rparr>
     (Some [(''bookings'',
      \<lparr>rows = [\<lparr>id_col = 1, name_col = Some ''A'', email_col = None, phone_col = None,
        plan_col = Some ''group'', hours_col = 2, price_col = 1180, notes_col = None,
        created_at_col = ''t1''\<rparr>,
       \<lparr>id_col = 2, name_col = Some ''B'', email_col = None, phone_col = None,
        plan_col = Some ''individual'', hours_col = 1, price_col = 790, notes_col = None,
        created_at_col = ''t3''\<rparr>],
       sqlite_sequence = 2\<rparr>)]) =
   (Some [(''bookings'',
      \<lparr>rows = [\<lparr>id_col = 1, name_col = Some ''A'', email_col = None, phone_col = None,
        plan_col = Some ''group'', hours_col = 2, price_col = 1180, notes_col = None,
        created_at_col = ''t1''\<rparr>,
       \<lparr>id_col = 2, name_col = Some ''B'', email_col = None, phone_col = None,
        plan_col = Some ''individual'', hours_col = 1, price_col = 790, notes_col = None,
        created_at_col = ''t3''\<rparr>],
       sqlite_sequence = 2\<rparr>)],
    Inr (Admin_page
      [\<lparr>id_col = 2, name_col = Some ''B'', email_col = None, phone_col = None,
        plan_col = Some ''individual'', hours_col = 1, price_col = 790, notes_col = None,
        created_at_col = ''t3''\<rparr>,
       \<lparr>id_col = 1, name_col = Some ''A'', email_col = None, phone_col = None,
        plan_col = Some ''group'', hours_col = 2, price_col = 1180, notes_col = None,
        created_at_col = ''t1''\<rparr>])) \<and>
   sorted_wrt (\<lambda>a b. id_col b \<le> id_col a)
      [\<lparr>id_col = 2, name_col = Some ''B'', email_col = None, phone_col = None,
        plan_col = Some ''individual'', hours_col = 1, price_col = 790, notes_col = None,
        created_at_col = ''t3''\<rparr>,
       \<lparr>id_col = 1, name_col = Some ''A'', email_col = None, phone_col = None,
        plan_col = Some ''group'', hours_col = 2, price_col = 1180, notes_col = None,
        created_at_col = ''t1''\<rparr>]"
proof -
  let ?a = "\<lparr>id_col = 1, name_col = Some ''A'', email_col = None, phone_col = None,
        plan_col = Some ''group'', hours_col = 2, price_col = 1180, notes_col = None,
        created_at_col = ''t1''\<rparr>"
  let ?b = "\<lparr>id_col = 2, name_col = Some ''B'', email_col = None, phone_col = None,
        plan_col = Some ''individual'', hours_col = 1, price_col = 790, notes_col = None,
        created_at_col = ''t3''\<rparr>"
  let ?f = "Some [(''bookings'', \<lparr>rows = [?a, ?b], sqlite_sequence = 2\<rparr>)]"
  let ?req = "\<lparr>request_method = ''GET'', form = Map.empty, args = [''pw'' \<mapsto> ''demo-password'']\<rparr>"
  have run: "admin ?req ?f = (?f, Inr (Admin_page [?b, ?a]))"
    by (simp add: admin_def get_db_def select_bookings_def)
  from admin_read_only [OF run]
  have "\<forall>bs. Inr (Admin_page [?b, ?a]) = (Inr (Admin_page bs) :: error + response) \<longrightarrow>
            mset bs = mset (stored_rows ?f) \<and> sorted_wrt (\<lambda>a b. id_col b \<le> id_col a) bs"
    by (elim conjE)
  then have "sorted_wrt (\<lambda>a b. id_col b \<le> id_col a) [?b, ?a]"
    by (elim allE [of _ "[?b, ?a]"]) (drule mp, rule refl, erule conjunct2)
  with run show ?thesis by (rule conjI)
qed

text \<open>
  Claim C9. Initialising the schema is idempotent: a second \<^verbatim>\<open>init_db\<close> changes
  nothing; a database that has the table is returned as it is; one that has not gets
  the empty table and nothing else; afterwards the schema holds the table once
  wherever it held it at most once, names that were distinct stay distinct, every
  table keeps its contents and the stored rows are the same. Opening the file again,
  as each process start does, gives the same database and the same rows.
\<close>

theorem init_db_idempotent:
  "init_db (init_db db) = init_db db \<and>
   (map_of db ''bookings'' \<noteq> None \<longrightarrow> init_db db = db) \<and>
   (map_of db ''bookings'' = None \<longrightarrow>
      init_db db = db @ [(''bookings'', \<lparr>rows = [], sqlite_sequence = 0\<rparr>)]) \<and>
   length (filter (\<lambda>e. fst e = ''bookings'') (init_db db)) =
     max 1 (length (filter (\<lambda>e. fst e = ''bookings'') db)) \<and>
   (distinct (map fst db) \<longrightarrow> distinct (map fst (init_db db))) \<and>
   (\<forall>n t. map_of db n = Some t \<longrightarrow> map_of (init_db db) n = Some t) \<and>
   stored_rows (Some (init_db db)) = stored_rows (Some db) \<and>
   get_db (Some (get_db file)) = get_db file \<and>
   stored_rows (Some (get_db file)) = stored_rows file"
proof -
  have absent: "filter (\<lambda>e. fst e = ''bookings'') db = []" if "map_of db ''bookings'' = None"
    using that by (auto simp: filter_empty_conv map_of_eq_None_iff intro: rev_image_eqI)
  have present: "1 \<le> length (filter (\<lambda>e. fst e = ''bookings'') db)"
    if "map_of db ''bookings'' = Some t" for t
  proof -
    from that have "(''bookings'', t) \<in> set db" by (rule map_of_SomeD)
    then have "(''bookings'', t) \<in> set (filter (\<lambda>e. fst e = ''bookings'') db)" by simp
    then have "filter (\<lambda>e. fst e = ''bookings'') db \<noteq> []" by force
    then show ?thesis by (simp add: Suc_le_eq)
  qed
  have idem: "init_db (init_db db) = init_db db"
    by (cases "map_of db ''bookings''") (simp_all add: init_db_def map_add_def split: option.splits)
  have cnt: "length (filter (\<lambda>e. fst e = ''bookings'') (init_db db)) =
     max 1 (length (filter (\<lambda>e. fst e = ''bookings'') db))"
  proof (cases "map_of db ''bookings''")
    case None
    then show ?thesis by (simp add: init_db_def absent)
  next
    case (Some t)
    then show ?thesis using present [OF Some] by (simp add: init_db_def)
  qed
  have dist: "distinct (map fst db) \<longrightarrow> distinct (map fst (init_db db))"
  proof (cases "map_of db ''bookings''")
    case None
    then have "''bookings'' \<notin> fst ` set db" by (simp add: map_of_eq_None_iff)
    then show ?thesis by (simp add: init_db_def None)
  next
    case (Some t)
    then show ?thesis by (simp add: init_db_def)
  qed
  have keep: "\<forall>n t. map_of db n = Some t \<longrightarrow> map_of (init_db db) n = Some t"
    by (cases "map_of db ''bookings''") (auto simp: init_db_def map_add_def)
  have rows_kept: "stored_rows (Some (init_db db)) = stored_rows (Some db)"
    by (cases "map_of db ''bookings''") (simp_all add: stored_rows_def init_db_def map_add_def)
  have noop: "map_of db ''bookings'' \<noteq> None \<longrightarrow> init_db db = db"
    by (auto simp: init_db_def)
  have fresh: "map_of db ''bookings'' = None \<longrightarrow>
      init_db db = db @ [(''bookings'', \<lparr>rows = [], sqlite_sequence = 0\<rparr>)]"
    by (simp add: init_db_def)
  have again: "get_db (Some (get_db file)) = get_db file" by (simp add: get_db_def)
  have "stored_rows (Some (get_db file)) = stored_rows file" by (rule stored_rows_get_db)
  with idem noop fresh cnt dist keep rows_kept again show ?thesis
    by blast
qed

theorem init_db_idempotent_witness:
  "map_of ([] :: database) ''bookings'' = None \<and>
   init_db [] = [(''bookings'', \<lparr>rows = [], sqlite_sequence = 0\<rparr>)] \<and>
   init_db (init_db []) = init_db [] \<and>
   map_of [(''bookings'', \<lparr>rows = [\<lparr>id_col = 1, name_col = Some ''A'', email_col = None, phone_col = None,
          plan_col = Some ''group'', hours_col = 2, price_col = 1180, notes_col = None,
          created_at_col = ''t1''\<rparr>],
        sqlite_sequence = 1\<rparr>)] ''bookings'' \<noteq> None \<and>
   distinct (map fst [(''bookings'', \<lparr>rows = [\<lparr>id_col = 1, name_col = Some ''A'', email_col = None, phone_col = None,
          plan_col = Some ''group'', hours_col = 2, price_col = 1180, notes_col = None,
          created_at_col = ''t1''\<rparr>],
        sqlite_sequence = 1\<rparr>)]) \<and>
   init_db [(''bookings'', \<lparr>rows = [\<lparr>id_col = 1, name_col = Some ''A'', email_col = None, phone_col = None,
          plan_col = Some ''group'', hours_col = 2, price_col = 1180, notes_col = None,
          created_at_col = ''t1''\<rparr>],
        sqlite_sequence = 1\<rparr>)] =
     [(''bookings'', \<lparr>rows = [\<lparr>id_col = 1, name_col = Some ''A'', email_col = None, phone_col = None,
          plan_col = Some ''group'', hours_col = 2, price_col = 1180, notes_col = None,
          created_at_col = ''t1''\<rparr>],
        sqlite_sequence = 1\<rparr>)] \<and>
   distinct (map fst (init_db [(''bookings'', \<lparr>rows = [\<lparr>id_col = 1, name_col = Some ''A'', email_col = None, phone_col = None,
          plan_col = Some ''group'', hours_col = 2, price_col = 1180, notes_col = None,
          created_at_col = ''t1''\<rparr>],
        sqlite_sequence = 1\<rparr>)])) \<and>
   stored_rows (Some (init_db [(''bookings'', \<lparr>rows = [\<lparr>id_col = 1, name_col = Some ''A'', email_col = None, phone_col = None,
          plan_col = Some ''group'', hours_col = 2, price_col = 1180, notes_col = None,
          created_at_col = ''t1''\<rparr>],
        sqlite_sequence = 1\<rparr>)])) =
     stored_rows (Some [(''bookings'', \<lparr>rows = [\<lparr>id_col = 1, name_col = Some ''A'', email_col = None, phone_col = None,
          plan_col = Some ''group'', hours_col = 2, price_col = 1180, notes_col = None,
          created_at_col = ''t1''\<rparr>],
        sqlite_sequence = 1\<rparr>)])"
proof -
  let ?db = "[(''bookings'', \<lparr>rows = [\<lparr>id_col = 1, name_col = Some ''A'', email_col = None, phone_col = None,
          plan_col = Some ''group'', hours_col = 2, price_col = 1180, notes_col = None,
          created_at_col = ''t1''\<rparr>],
        sqlite_sequence = 1\<rparr>)]"
  have a: "map_of ([] :: database) ''bookings'' = None" by simp
  have p: "map_of ?db ''bookings'' \<noteq> None" by simp
  have d: "distinct (map fst ?db)" by simp
  note empty = init_db_idempotent [of "[]" None]
  from empty have e1: "init_db (init_db []) = init_db []" by (rule conjunct1)
  from empty a have "init_db [] = [] @ [(''bookings'', \<lparr>rows = [], sqlite_sequence = 0\<rparr>)]"
    by blast
  then have e2: "init_db [] = [(''bookings'', \<lparr>rows = [], sqlite_sequence = 0\<rparr>)]"
    by simp
  have f: "init_db ?db = ?db \<and> distinct (map fst (init_db ?db)) \<and>
           stored_rows (Some (init_db ?db)) = stored_rows (Some ?db)"
    using init_db_idempotent [of ?db None] p d by blast
  from a p d e1 e2 f show ?thesis by blast
qed

text \<open>
  Claim C10. The plan of a stored submission is the text of the form field as it was
  sent (or NULL when it was not sent), whether or not it names a plan; the price
  stored with it is the rate of that plan, which is the group rate for every
  identifier other than \<open>group\<close> and \<open>individual\<close>, times the hours raised to at
  least 1.
\<close>

theorem plan_stored_verbatim:
  assumes "request_method req = ''POST''" and "book p now req file = (file', Inr resp)"
  shows "\<exists>b. stored_rows file' = stored_rows file @ [b] \<and>
           plan_col b = form req ''plan'' \<and>
           price_col b = rate (form req ''plan'') * max 1 (hours_col b) \<and>
           (form req ''plan'' \<noteq> Some ''group'' \<and> form req ''plan'' \<noteq> Some ''individual'' \<longrightarrow>
              price_col b = GROUP_PRICE * max 1 (hours_col b))"
proof -
  from book_post_Inr [OF assms] obtain b where
    r: "stored_rows file' = stored_rows file @ [b]" and
    p: "plan_col b = form req ''plan''" and
    c: "price_col b = calculate_price (form req ''plan'') (hours_col b)"
    by auto
  have "price_col b = rate (form req ''plan'') * max 1 (hours_col b)"
    by (simp add: c calculate_price_rate)
  moreover have "rate (form req ''plan'') = GROUP_PRICE"
    if "form req ''plan'' \<noteq> Some ''group''" and "form req ''plan'' \<noteq> Some ''individual''"
    using rate_unrecognized [OF that] by (simp add: GROUP_PRICE_def)
  ultimately show ?thesis using r p by auto
qed

theorem plan_stored_verbatim_witness:
  "request_method \<lparr>request_method = ''POST'',
        form = [''name'' \<mapsto> ''A'', ''plan'' \<mapsto> ''vip'', ''hours'' \<mapsto> ''2''],
        args = Map.empty\<rparr> = ''POST'' \<and>
   book py_int ''t1''
     \<lparr>request_method = ''POST'',
        form = [''name'' \<mapsto> ''A'', ''plan'' \<mapsto> ''vip'', ''hours'' \<mapsto> ''2''],
        args = Map.empty\<rparr> None =
   (Some [(''bookings'',
      \<lparr>rows = [\<lparr>id_col = 1, name_col = Some ''A'', email_col = None, phone_col = None,
          plan_col = Some ''vip'', hours_col = 2, price_col = 1180, notes_col = None,
          created_at_col = ''t1''\<rparr>],
       sqlite_sequence = 1\<rparr>)],
    Inr (Redirect ''book'')) \<and>
   (\<exists>b. [\<lparr>id_col = 1, name_col = Some ''A'', email_col = None, phone_col = None,
          plan_col = Some ''vip'', hours_col = 2, price_col = 1180, notes_col = None,
          created_at_col = ''t1''\<rparr>] = [] @ [b] \<and>
      plan_col b = Some ''vip'' \<and> price_col b = GROUP_PRICE * max 1 (hours_col b))"
proof -
  let ?req = "\<lparr>request_method = ''POST'',
        form = [''name'' \<mapsto> ''A'', ''plan'' \<mapsto> ''vip'', ''hours'' \<mapsto> ''2''],
        args = Map.empty\<rparr>"
  let ?row = "\<lparr>id_col = 1, name_col = Some ''A'', email_col = None, phone_col = None,
          plan_col = Some ''vip'', hours_col = 2, price_col = 1180, notes_col = None,
          created_at_col = ''t1''\<rparr>"
  let ?f = "Some [(''bookings'', \<lparr>rows = [?row], sqlite_sequence = 1\<rparr>)]"
  have m: "request_method ?req = ''POST''" by simp
  have run: "book py_int ''t1'' ?req None = (?f, Inr (Redirect ''book''))"
    by (simp add: eval_defs)
  have pl: "form ?req ''plan'' = Some ''vip''" by simp
  have s0: "stored_rows None = []" and st: "stored_rows ?f = [?row]"
    by (simp_all add: stored_rows_def)
  from plan_stored_verbatim [OF m run] obtain b where
    "stored_rows ?f = stored_rows None @ [b]" and
    "plan_col b = form ?req ''plan''" and
    "form ?req ''plan'' \<noteq> Some ''group'' \<and> form ?req ''plan'' \<noteq> Some ''individual'' \<longrightarrow>
       price_col b = GROUP_PRICE * max 1 (hours_col b)"
    by blast
  then have "[?row] = [] @ [b] \<and> plan_col b = Some ''vip'' \<and>
      price_col b = GROUP_PRICE * max 1 (hours_col b)"
    unfolding s0 st pl by simp
  then have "\<exists>b. [?row] = [] @ [b] \<and> plan_col b = Some ''vip'' \<and>
      price_col b = GROUP_PRICE * max 1 (hours_col b)" ..
  with m run show ?thesis by blast
qed

end
